theory Spec2Isabelle
  imports Complex_Main "HOL-Library.AList"
begin

section \<open>PageRank: transition model, sampling estimator, iterative estimator\<close>

text \<open>
  A shallow embedding of \<^verbatim>\<open>pagerank.py\<close>.

  \<^item> A Python \<^verbatim>\<open>dict\<close> is an association list in insertion order; storing under a key that
    is present replaces the value in place, storing under a new key appends
    (\<open>AList.update\<close>). Reading a missing key is \<open>KeyError\<close>.
  \<^item> A Python \<^verbatim>\<open>set\<close> of links is a list without repetitions, in the order the set
    iterates; \<^verbatim>\<open>len\<close> is \<open>length\<close>.
  \<^item> Python integers are \<open>int\<close>. Python floats are idealised as real numbers, with one
    exception: the division of a visit count by the sample count, the last operation of
    the sampling estimator, is rounded the way binary64 division rounds.
  \<^item> The process-wide random generator is made explicit: the values it hands out are
    parameters of the functions that draw them.
\<close>

subsection \<open>Data model\<close>

datatype error = KeyError | IndexError | ZeroDivisionError

type_synonym 'p corpus = "('p \<times> 'p list) list"

type_synonym 'p distribution = "('p \<times> real) list"

text \<open>
  What the random generator returns during one step of the walk: \<open>choice\<close> and
  \<open>choose_link_from_page\<close> are the two results of \<^verbatim>\<open>random.uniform(0,1)\<close>, \<open>restart\<close> the raw
  index behind \<^verbatim>\<open>random.choice(pages)\<close>. A step reads only the values its branch draws.
\<close>

record draws =
  choice :: real
  choose_link_from_page :: real
  restart :: nat

text \<open>The corpus is a dictionary whose values are sets.\<close>

definition is_corpus :: "'p corpus \<Rightarrow> bool" where
  "is_corpus corpus \<longleftrightarrow>
     distinct (map fst corpus) \<and> list_all (\<lambda>(page, links). distinct links) corpus"

text \<open>What \<^verbatim>\<open>crawl\<close> establishes: links stay inside the corpus, no page links to itself.\<close>

definition crawled :: "'p corpus \<Rightarrow> bool" where
  "crawled corpus \<longleftrightarrow>
     is_corpus corpus \<and>
     list_all (\<lambda>(page, links). list_all (\<lambda>link. link \<in> set (map fst corpus) \<and> link \<noteq> page) links)
       corpus"

subsection \<open>Transition model\<close>

definition transition_model :: "'p corpus \<Rightarrow> 'p \<Rightarrow> real \<Rightarrow> error + 'p distribution" where
  "transition_model corpus page damping_factor =
     (case map_of corpus page of
        None \<Rightarrow> Inl KeyError
      | Some links \<Rightarrow>
          let num_of_links = length links;
              num_of_pages = length corpus;
              probability_per_link =
                (if num_of_links > 0 then damping_factor / real num_of_links else 0)
          in if num_of_pages = 0 then Inl ZeroDivisionError
             else
               let remain = (1 - damping_factor) / real num_of_pages
               in Inr (fold (\<lambda>key probability.
                               AList.update key (probability_per_link + remain) probability)
                         links [(page, remain)]))"

subsection \<open>Division of integers in floating point\<close>

text \<open>
  Python's \<^verbatim>\<open>a / b\<close> on integers is the correctly rounded binary64 quotient: 53
  significant bits, round to nearest, ties to even. The exponent range is not modelled;
  the quotient of a visit count by the sample count stays inside it for every sample
  count below \<open>2^1022\<close>.
\<close>

text \<open>The number of binary digits of a natural number.\<close>

fun bit_length :: "nat \<Rightarrow> nat" where
  "bit_length n = (if n = 0 then 0 else Suc (bit_length (n div 2)))"

declare bit_length.simps [simp del]

definition pow2 :: "int \<Rightarrow> real" where
  "pow2 k = (if 0 \<le> k then 2 ^ nat k else 1 / 2 ^ nat (- k))"

definition round_half_even :: "real \<Rightarrow> int" where
  "round_half_even x =
     (let f = \<lfloor>x\<rfloor>; r = x - of_int f
      in if r < 1/2 then f else if 1/2 < r then f + 1 else if even f then f else f + 1)"

text \<open>
  For positive \<open>a\<close> and \<open>b\<close>: \<open>e\<close> is the exponent with \<open>2^e \<le> a/b < 2^(e+1)\<close>, found from
  the bit lengths; the quotient is scaled to an integer of 53 bits, rounded, and scaled
  back.
\<close>

definition float_div_pos :: "nat \<Rightarrow> nat \<Rightarrow> real" where
  "float_div_pos a b =
     (let s = int (bit_length a) - int (bit_length b);
          e = (if real b * pow2 s \<le> real a then s else s - 1);
          m = round_half_even (real a / real b * pow2 (52 - e))
      in real_of_int m * pow2 (e - 52))"

text \<open>The divisor is not zero where this is called.\<close>

definition float_div :: "int \<Rightarrow> int \<Rightarrow> real" where
  "float_div a b =
     (if a = 0 then 0
      else real_of_int (sgn a * sgn b) * float_div_pos (nat \<bar>a\<bar>) (nat \<bar>b\<bar>))"

subsection \<open>Sampling estimator\<close>

text \<open>\<^verbatim>\<open>random.choice(seq)\<close>: \<open>IndexError\<close> on an empty sequence, else the element at a
  random index below the length.\<close>

definition random_choice :: "'a list \<Rightarrow> nat \<Rightarrow> error + 'a" where
  "random_choice seq r =
     (if seq = [] then Inl IndexError else Inr (seq ! (r mod length seq)))"

text \<open>The inner \<^verbatim>\<open>for page, probability in prob_distribution.items()\<close> loop with its
  \<^verbatim>\<open>break\<close>; \<open>None\<close> when the loop runs to its end without assigning.\<close>

fun select_page :: "'p distribution \<Rightarrow> real \<Rightarrow> real \<Rightarrow> 'p option" where
  "select_page [] choose_link running_prob = None"
| "select_page ((page, probability) # rest) choose_link running_prob =
     (let running_prob' = running_prob + probability
      in if choose_link \<le> running_prob' then Some page
         else select_page rest choose_link running_prob')"

text \<open>The part of the loop body after the visit is counted: the next current page.\<close>

definition next_page :: "'p corpus \<Rightarrow> real \<Rightarrow> 'p list \<Rightarrow> 'p \<Rightarrow> draws \<Rightarrow> error + 'p" where
  "next_page corpus damping_factor pages current_page dr =
     (if choice dr \<le> damping_factor then
        (case transition_model corpus current_page damping_factor of
           Inl e \<Rightarrow> Inl e
         | Inr prob_distribution \<Rightarrow>
             (case select_page prob_distribution (choose_link_from_page dr) 0 of
                None \<Rightarrow> Inr current_page
              | Some page \<Rightarrow> Inr page))
      else random_choice pages (restart dr))"

fun sample_loop ::
  "'p corpus \<Rightarrow> real \<Rightarrow> 'p list \<Rightarrow> draws list \<Rightarrow> ('p \<times> int) list \<times> 'p \<Rightarrow>
     error + ('p \<times> int) list \<times> 'p" where
  "sample_loop corpus damping_factor pages [] state = Inr state"
| "sample_loop corpus damping_factor pages (dr # rest) (page_count, current_page) =
     (case map_of page_count current_page of
        None \<Rightarrow> Inl KeyError
      | Some visits \<Rightarrow>
          (case next_page corpus damping_factor pages current_page dr of
             Inl e \<Rightarrow> Inl e
           | Inr page \<Rightarrow>
               sample_loop corpus damping_factor pages rest
                 (AList.update current_page (visits + 1) page_count, page)))"

text \<open>\<open>start\<close> is the raw index of the first \<^verbatim>\<open>random.choice\<close>, \<open>rng i\<close> the draws of
  step \<open>i\<close>. \<^verbatim>\<open>range(n)\<close> is empty for \<open>n \<le> 0\<close>.\<close>

definition sample_pagerank ::
  "'p corpus \<Rightarrow> real \<Rightarrow> int \<Rightarrow> nat \<Rightarrow> (nat \<Rightarrow> draws) \<Rightarrow> error + 'p distribution" where
  "sample_pagerank corpus damping_factor n start rng =
     (let page_count = map (\<lambda>keys. (keys, 0)) (map fst corpus);
          pages = map fst corpus
      in case random_choice pages start of
           Inl e \<Rightarrow> Inl e
         | Inr current_page \<Rightarrow>
             (case sample_loop corpus damping_factor pages (map rng [0..<nat n])
                     (page_count, current_page) of
                Inl e \<Rightarrow> Inl e
              | Inr (page_count', last_page) \<Rightarrow>
                  if page_count' \<noteq> [] \<and> n = 0 then Inl ZeroDivisionError
                  else Inr (map (\<lambda>(key, value). (key, float_div value n)) page_count')))"

subsection \<open>Iterative estimator\<close>

text \<open>The inner \<^verbatim>\<open>for key in corpus\<close> loop, which accumulates \<open>running_probability\<close>.\<close>

fun running_sum ::
  "'p corpus \<Rightarrow> 'p distribution \<Rightarrow> real \<Rightarrow> nat \<Rightarrow> 'p \<Rightarrow> 'p list \<Rightarrow> real \<Rightarrow> error + real" where
  "running_sum corpus probability_page damping_factor N cur_page [] running_probability =
     Inr running_probability"
| "running_sum corpus probability_page damping_factor N cur_page (key # keys)
     running_probability =
     (if key = cur_page then
        running_sum corpus probability_page damping_factor N cur_page keys running_probability
      else
        (case map_of corpus key of
           None \<Rightarrow> Inl KeyError
         | Some page_links_set \<Rightarrow>
             if cur_page \<notin> set page_links_set then
               running_sum corpus probability_page damping_factor N cur_page keys
                 running_probability
             else
               (case map_of probability_page key of
                  None \<Rightarrow> Inl KeyError
                | Some rank \<Rightarrow>
                    if length page_links_set \<noteq> 0 then
                      running_sum corpus probability_page damping_factor N cur_page keys
                        (running_probability
                           + damping_factor * (rank / real (length page_links_set)))
                    else if N = 0 then Inl ZeroDivisionError
                    else
                      running_sum corpus probability_page damping_factor N cur_page keys
                        (running_probability + damping_factor * (rank / real N)))))"

text \<open>The value stored in \<^verbatim>\<open>new_prob_page[cur_page]\<close>.\<close>

definition new_rank ::
  "'p corpus \<Rightarrow> 'p distribution \<Rightarrow> real \<Rightarrow> nat \<Rightarrow> 'p \<Rightarrow> error + real" where
  "new_rank corpus probability_page damping_factor N cur_page =
     (if N = 0 then Inl ZeroDivisionError
      else
        let part1 = (1 - damping_factor) / real N
        in case running_sum corpus probability_page damping_factor N cur_page
                  (map fst corpus) 0 of
             Inl e \<Rightarrow> Inl e
           | Inr running_probability \<Rightarrow> Inr (part1 + running_probability))"

text \<open>One run of the outer \<^verbatim>\<open>for key in corpus\<close> loop: it either returns from the
  function with \<open>probability_page\<close>, or ends with the filled \<open>new_prob_page\<close>.\<close>

datatype 'p pass = Return "'p distribution" | Completed "'p distribution"

fun update_pass ::
  "'p corpus \<Rightarrow> 'p distribution \<Rightarrow> real \<Rightarrow> nat \<Rightarrow> 'p list \<Rightarrow> 'p distribution \<Rightarrow>
     error + 'p pass" where
  "update_pass corpus probability_page damping_factor N [] new_prob_page =
     Inr (Completed new_prob_page)"
| "update_pass corpus probability_page damping_factor N (cur_page # keys) new_prob_page =
     (case new_rank corpus probability_page damping_factor N cur_page of
        Inl e \<Rightarrow> Inl e
      | Inr rank \<Rightarrow>
          (case map_of probability_page cur_page of
             None \<Rightarrow> Inl KeyError
           | Some prev_prob \<Rightarrow>
               let dx = \<bar>rank - prev_prob\<bar>
               in if dx < 0.001 then Inr (Return probability_page)
                  else update_pass corpus probability_page damping_factor N keys
                         (AList.update cur_page rank new_prob_page)))"

text \<open>The \<^verbatim>\<open>while cnt < 100\<close> loop. Falling out of it, the function returns \<^verbatim>\<open>None\<close>.\<close>

function iterate_loop ::
  "'p corpus \<Rightarrow> real \<Rightarrow> nat \<Rightarrow> nat \<Rightarrow> 'p distribution \<Rightarrow> error + 'p distribution option" where
  "iterate_loop corpus damping_factor N cnt probability_page =
     (if cnt < 100 then
        (case update_pass corpus probability_page damping_factor N (map fst corpus) [] of
           Inl e \<Rightarrow> Inl e
         | Inr (Return result) \<Rightarrow> Inr (Some result)
         | Inr (Completed new_prob_page) \<Rightarrow>
             iterate_loop corpus damping_factor N (cnt + 1) new_prob_page)
      else Inr None)"
  by pat_completeness auto
termination
  by (relation "measure (\<lambda>(corpus, damping_factor, N, cnt, probability_page). 100 - cnt)") auto

declare iterate_loop.simps [simp del]

definition iterate_pagerank ::
  "'p corpus \<Rightarrow> real \<Rightarrow> error + 'p distribution option" where
  "iterate_pagerank corpus damping_factor =
     (let N = length corpus;
          probability_page = map (\<lambda>key. (key, 1 / real N)) (map fst corpus)
      in iterate_loop corpus damping_factor N 0 probability_page)"

subsection \<open>Notions used by the properties\<close>

text \<open>Every link of every page is itself a page of the corpus.\<close>

definition links_closed :: "'p corpus \<Rightarrow> bool" where
  "links_closed corpus \<longleftrightarrow>
     list_all (\<lambda>(page, links). list_all (\<lambda>link. link \<in> set (map fst corpus)) links) corpus"

text \<open>The total probability mass of a distribution.\<close>

definition mass :: "'p distribution \<Rightarrow> real" where
  "mass pd = sum_list (map snd pd)"

text \<open>
  The values of \<open>current_page\<close> at the successive executions of
  \<^verbatim>\<open>page_count[current_page] += 1\<close>: the pages the walk visits, in order.
\<close>

fun visited_pages ::
  "'p corpus \<Rightarrow> real \<Rightarrow> 'p list \<Rightarrow> draws list \<Rightarrow> 'p \<Rightarrow> error + 'p list" where
  "visited_pages corpus damping_factor pages [] current_page = Inr []"
| "visited_pages corpus damping_factor pages (dr # rest) current_page =
     (case next_page corpus damping_factor pages current_page dr of
        Inl e \<Rightarrow> Inl e
      | Inr page \<Rightarrow>
          (case visited_pages corpus damping_factor pages rest page of
             Inl e \<Rightarrow> Inl e
           | Inr visited \<Rightarrow> Inr (current_page # visited)))"

subsection \<open>Example corpora\<close>

definition dangling_corpus :: "string corpus" where
  "dangling_corpus = [(''A'', [''B'']), (''B'', []), (''C'', [''A''])]"

definition cycle_corpus :: "string corpus" where
  "cycle_corpus = [(''A'', [''B'']), (''B'', [''A'']), (''C'', [])]"

definition two_sinks :: "string corpus" where
  "two_sinks = [(''A'', []), (''B'', [])]"

definition single_page :: "string corpus" where
  "single_page = [(''A'', [])]"

definition star_corpus :: "string corpus" where
  "star_corpus = [(''C'', [''L1'', ''L2'']), (''L1'', [''C'']), (''L2'', [''C''])]"

text \<open>The ranks of the star corpus when \<open>C\<close> has rank \<open>x\<close> and the two leaves share the rest.\<close>

definition star_state :: "real \<Rightarrow> string distribution" where
  "star_state x = [(''C'', x), (''L1'', (1 - x) / 2), (''L2'', (1 - x) / 2)]"

subsection \<open>Example draws\<close>

text \<open>A step whose first draw is above the damping factor \<open>0.85\<close> and restarts at index 2.\<close>

definition restart_draws :: draws where
  "restart_draws = \<lparr>choice = 9/10, choose_link_from_page = 1/2, restart = 2\<rparr>"


section \<open>Properties\<close>

subsection \<open>Transition model\<close>

text \<open>
  C1. The claim: the distribution returned by the transition model sums to 1 and is
  non-negative, and from a dangling page every page of the corpus receives \<open>1/N\<close>.
  The code gives entries only to the current page and its links. On the corpus
  \<open>{A: {B}, B: {}, C: {A}}\<close> with damping factor \<open>0.85\<close>, the dangling page \<open>B\<close> yields the
  single entry \<open>B: 0.05\<close> (mass \<open>0.05\<close>, not \<open>1\<close>; \<open>A\<close> and \<open>C\<close> receive nothing rather than
  \<open>1/3\<close>), and the linked page \<open>A\<close> yields mass \<open>0.95\<close>.
\<close>

theorem transition_model_mass_lost:
  "transition_model dangling_corpus ''B'' (85/100) = Inr [(''B'', 1/20)]
   \<and> mass [(''B'', 1/20)] = 1/20
   \<and> transition_model dangling_corpus ''A'' (85/100) = Inr [(''A'', 1/20), (''B'', 9/10)]
   \<and> mass [(''A'', 1/20), (''B'', 9/10)] = 19/20"
  by (simp add: transition_model_def dangling_corpus_def mass_def)

text \<open>
  C2. The claim: from a page with links, every page of the corpus is a key of the returned
  mapping, linked pages carrying \<open>d/|L| + (1-d)/N\<close> and all others \<open>(1-d)/N\<close>.
  On \<open>{A: {B}, B: {}, C: {A}}\<close> from page \<open>A\<close> with \<open>d = 0.85\<close> the code returns
  \<open>{A: 0.05, B: 0.9}\<close>: the values of \<open>A\<close> and \<open>B\<close> are as claimed, but page \<open>C\<close> is not a
  key at all.
\<close>

theorem transition_model_misses_pages:
  "(case transition_model dangling_corpus ''A'' (85/100) of
      Inl e \<Rightarrow> False
    | Inr pd \<Rightarrow>
        map fst pd = [''A'', ''B''] \<and> map_of pd ''B'' = Some (85/100 / 1 + (1 - 85/100) / 3)
        \<and> map_of pd ''A'' = Some ((1 - 85/100) / 3) \<and> map_of pd ''C'' = None)"
  by (simp add: transition_model_def dangling_corpus_def)

subsection \<open>Iterative estimator\<close>

text \<open>
  C3. The claim: the iteration stops only when the largest change over all pages is below
  \<open>0.001\<close>, and then returns the newly computed pass. The code tests each page as soon as
  its new value is computed and returns the previous distribution. On
  \<open>{A: {B}, B: {A}, C: {}}\<close> with \<open>d = 0.85\<close> the first page \<open>A\<close> does not move in the first
  pass, so the initial uniform distribution is returned, although the new value of \<open>C\<close>
  is \<open>0.05\<close>, a change of \<open>17/60\<close>.
\<close>

theorem iterate_pagerank_stops_on_first_small_delta:
  "iterate_pagerank cycle_corpus (85/100) = Inr (Some [(''A'', 1/3), (''B'', 1/3), (''C'', 1/3)])
   \<and> new_rank cycle_corpus [(''A'', 1/3), (''B'', 1/3), (''C'', 1/3)] (85/100) 3 ''C''
       = Inr (1/20)
   \<and> \<not> \<bar>1/20 - 1/3\<bar> < (0.001::real)"
  by (simp add: iterate_pagerank_def iterate_loop.simps new_rank_def cycle_corpus_def)

text \<open>
  C4. The claim: in every pass a dangling page \<open>q\<close> adds \<open>d * PR(q)/N\<close> to the new rank of
  every page. In the code the test \<^verbatim>\<open>cur_page not in page_links_set\<close> skips a page with
  no links before the branch written for it is reached, and a page is never its own
  predecessor. On \<open>{A: {}, B: {}}\<close> with \<open>d = 0.85\<close> and ranks \<open>1/2, 1/2\<close> the new rank of \<open>A\<close>
  is \<open>(1-d)/2 = 0.075\<close>; with the two dangling contributions it would be \<open>0.5\<close>.
\<close>

theorem new_rank_drops_dangling_mass:
  "new_rank two_sinks [(''A'', 1/2), (''B'', 1/2)] (85/100) 2 ''A'' = Inr (3/40)
   \<and> (1 - 85/100) / 2 + 85/100 * ((1/2) / 2) + 85/100 * ((1/2) / 2) = (1/2 :: real)"
  by (simp add: new_rank_def two_sinks_def)

text \<open>
  C8. The claim: the distribution returned on convergence sums to 1 within \<open>1e-6\<close>.
  Nothing in the code renormalises; on \<open>{A: {}, B: {}}\<close> with \<open>d = 0.85\<close> the result is
  \<open>{A: 0.075, B: 0.075}\<close>, of mass \<open>0.15\<close>.
\<close>

theorem iterate_pagerank_not_normalised:
  "iterate_pagerank two_sinks (85/100) = Inr (Some [(''A'', 3/40), (''B'', 3/40)])
   \<and> mass [(''A'', 3/40), (''B'', 3/40)] = 3/20"
  by (simp add: iterate_pagerank_def iterate_loop.simps new_rank_def two_sinks_def mass_def)

text \<open>
  C9. The claim: on the one-page corpus \<open>{A: {}}\<close> both estimators return \<open>{A: 1.0}\<close>.
  The iterative estimator with \<open>d = 0.85\<close> returns \<open>{A: 0.15}\<close>: the first pass computes
  \<open>1 - d\<close>, the second pass sees no change and returns it. (The sampling estimator does
  return \<open>{A: 1.0}\<close>, see \<open>sample_pagerank_one_page\<close> below.)
\<close>

theorem iterate_pagerank_single_page:
  "iterate_pagerank single_page (85/100) = Inr (Some [(''A'', 3/20)])"
  by (simp add: iterate_pagerank_def iterate_loop.simps new_rank_def single_page_def)

subsection \<open>Sampling estimator\<close>

lemma links_closedD:
  "links_closed corpus \<Longrightarrow> map_of corpus page = Some links \<Longrightarrow> set links \<subseteq> set (map fst corpus)"
  by (auto simp: links_closed_def list_all_iff dest!: map_of_SomeD)

lemma fold_update_keys:
  "fst ` set (fold (\<lambda>key probability. AList.update key v probability) links acc)
     = set links \<union> fst ` set acc"
  by (induction links arbitrary: acc) (auto simp: AList.dom_update)

lemma transition_model_keys:
  assumes "transition_model corpus page d = Inr pd"
  shows "\<exists>links. map_of corpus page = Some links \<and> fst ` set pd = insert page (set links)"
proof (cases "map_of corpus page")
  case None
  then show ?thesis using assms by (simp add: transition_model_def)
next
  case (Some links)
  with assms obtain v r where
    "pd = fold (\<lambda>key probability. AList.update key v probability) links [(page, r)]"
    by (auto simp: transition_model_def Let_def split: if_splits)
  then have "fst ` set pd = insert page (set links)"
    by (simp only: fold_update_keys) simp
  with Some show ?thesis by simp
qed

lemma transition_model_total:
  "page \<in> set (map fst corpus) \<Longrightarrow> \<exists>pd. transition_model corpus page d = Inr pd"
proof -
  assume a: "page \<in> set (map fst corpus)"
  then have "map_of corpus page \<noteq> None" by (simp add: map_of_eq_None_iff)
  moreover from a have "length corpus \<noteq> 0" by auto
  ultimately show ?thesis
    by (auto simp: transition_model_def Let_def split: option.splits)
qed

lemma select_page_in_keys:
  "select_page pd u r = Some page \<Longrightarrow> page \<in> fst ` set pd"
  by (induction pd u r rule: select_page.induct) (auto simp: Let_def split: if_splits)

lemma random_choice_in_set:
  "seq \<noteq> [] \<Longrightarrow> \<exists>x. random_choice seq r = Inr x \<and> x \<in> set seq"
  by (simp add: random_choice_def)

lemma next_page_in_corpus:
  assumes "links_closed corpus" and "current_page \<in> set (map fst corpus)"
  shows "\<exists>page. next_page corpus d (map fst corpus) current_page dr = Inr page
           \<and> page \<in> set (map fst corpus)"
proof (cases "choice dr \<le> d")
  case True
  obtain pd where pd: "transition_model corpus current_page d = Inr pd"
    using transition_model_total[OF assms(2), of d] by auto
  obtain links where l: "map_of corpus current_page = Some links"
    "fst ` set pd = insert current_page (set links)"
    using transition_model_keys[OF pd] by auto
  have "set links \<subseteq> set (map fst corpus)"
    by (rule links_closedD[OF assms(1) l(1)])
  with assms(2) have sub: "fst ` set pd \<subseteq> set (map fst corpus)"
    unfolding l(2) by simp
  show ?thesis
  proof (cases "select_page pd (choose_link_from_page dr) 0")
    case None
    then show ?thesis using True pd assms(2) by (simp add: next_page_def)
  next
    case (Some page)
    have "page \<in> fst ` set pd" by (rule select_page_in_keys[OF Some])
    with sub have "page \<in> set (map fst corpus)" by (rule subsetD)
    then show ?thesis using True pd Some by (simp add: next_page_def)
  qed
next
  case False
  from assms(2) have "map fst corpus \<noteq> []" by auto
  then show ?thesis using False random_choice_in_set[of "map fst corpus" "restart dr"]
    by (simp add: next_page_def)
qed

text \<open>Some binary64 quotients: \<open>1/2\<close> and \<open>3/6\<close> are exact, \<open>2/6\<close> and \<open>1/6\<close> are rounded down.\<close>

lemma bit_length_values:
  "bit_length (Suc 0) = 1" "bit_length 2 = 2" "bit_length 3 = 2" "bit_length 6 = 3"
  by (simp_all add: bit_length.simps)

lemma float_div_pos_values:
  "float_div_pos (Suc 0) 2 = 1/2"
  "float_div_pos 3 6 = 1/2"
  "float_div_pos 2 6 = 6004799503160661 / 18014398509481984"
  "float_div_pos (Suc 0) 6 = 6004799503160661 / 36028797018963968"
  by (simp_all add: float_div_pos_def bit_length_values pow2_def round_half_even_def Let_def)

lemma float_div_values:
  "float_div 0 2 = 0"
  "float_div 1 2 = 1/2"
  "float_div 3 6 = 1/2"
  "float_div 2 6 = 6004799503160661 / 18014398509481984"
  "float_div 1 6 = 6004799503160661 / 36028797018963968"
  by (simp_all add: float_div_def float_div_pos_values)

text \<open>A quotient of a positive integer by itself is 1 in floating point, too.\<close>

lemma round_half_even_of_int: "round_half_even (of_int k) = k"
  by (simp add: round_half_even_def)

lemma float_div_pos_same:
  assumes "0 < a"
  shows "float_div_pos a a = 1"
proof -
  have p0: "pow2 0 = 1" "pow2 52 = 4503599627370496" "pow2 (- 52) = 1 / 4503599627370496"
    by (simp_all add: pow2_def)
  have q: "real a / real a = 1" using assms by simp
  have r: "round_half_even 4503599627370496 = 4503599627370496"
    using round_half_even_of_int[of 4503599627370496] by simp
  have e: "(if real a * pow2 0 \<le> real a then (0::int) else 0 - 1) = 0"
    by (simp add: p0)
  show ?thesis
    unfolding float_div_pos_def Let_def
    by (simp only: diff_self e q diff_zero mult_1) (simp add: p0 r)
qed

lemma float_div_same:
  assumes "0 < n"
  shows "float_div n n = 1"
proof -
  from assms have "0 < nat \<bar>n\<bar>" by simp
  from float_div_pos_same[OF this] assms show ?thesis
    by (simp add: float_div_def)
qed

lemma update_present_keys:
  "map_of page_count k = Some v \<Longrightarrow> map fst (AList.update k w page_count) = map fst page_count"
  by (induction page_count) (auto split: if_splits)

lemma bump_absent:
  "k \<notin> fst ` set page_count \<Longrightarrow>
     map (\<lambda>(p, c). (p, c + (if p = k then 1 else (0::int)))) page_count = page_count"
  by (induction page_count) auto

lemma update_increment_map:
  "distinct (map fst page_count) \<Longrightarrow> map_of page_count k = Some (v::int) \<Longrightarrow>
     AList.update k (v + 1) page_count
       = map (\<lambda>(p, c). (p, c + (if p = k then 1 else 0))) page_count"
proof (induction page_count)
  case Nil
  then show ?case by simp
next
  case (Cons q page_count)
  obtain p c where q: "q = (p, c)" by (cases q)
  show ?case
  proof (cases "p = k")
    case True
    with Cons.prems q have "v = c" and "k \<notin> fst ` set page_count" by auto
    with True q bump_absent[of k page_count] show ?thesis by simp
  next
    case False
    with Cons.prems q have "distinct (map fst page_count)" "map_of page_count k = Some v"
      by auto
    from Cons.IH[OF this] False q show ?thesis by simp
  qed
qed

lemma bump_then_add:
  "map (\<lambda>(p, c). (p, c + int (count_list visited p)))
     (map (\<lambda>(p, c). (p, c + (if p = k then 1 else 0))) page_count)
   = map (\<lambda>(p, c). (p, c + int (count_list (k # visited) p))) page_count"
  by (induction page_count) auto

lemma sample_loop_visits:
  assumes "links_closed corpus" and "distinct (map fst corpus)"
  shows "current_page \<in> set (map fst corpus) \<Longrightarrow> map fst page_count = map fst corpus \<Longrightarrow>
         \<exists>visited last_page.
           visited_pages corpus d (map fst corpus) drs current_page = Inr visited
           \<and> length visited = length drs
           \<and> set visited \<subseteq> set (map fst corpus)
           \<and> sample_loop corpus d (map fst corpus) drs (page_count, current_page)
               = Inr (map (\<lambda>(p, c). (p, c + int (count_list visited p))) page_count, last_page)"
proof (induction drs arbitrary: page_count current_page)
  case Nil
  have "map (\<lambda>(p, c). (p, c + int (count_list [] p))) page_count = page_count"
    by (induction page_count) auto
  then show ?case by simp
next
  case (Cons dr drs)
  from Cons.prems have "current_page \<in> fst ` set page_count"
    by (simp flip: set_map)
  then have "map_of page_count current_page \<noteq> None"
    by (simp add: map_of_eq_None_iff)
  then obtain visits where v: "map_of page_count current_page = Some visits"
    by auto
  obtain page where p: "next_page corpus d (map fst corpus) current_page dr = Inr page"
    "page \<in> set (map fst corpus)"
    using next_page_in_corpus[OF assms(1) Cons.prems(1), of d dr] by auto
  let ?pc = "AList.update current_page (visits + 1) page_count"
  have k: "map fst ?pc = map fst corpus"
    using update_present_keys[OF v] Cons.prems(2) by simp
  from assms(2) Cons.prems(2) have "distinct (map fst page_count)" by simp
  from update_increment_map[OF this v]
  have bump: "?pc = map (\<lambda>(p, c). (p, c + (if p = current_page then 1 else 0))) page_count" .
  from Cons.IH[OF p(2) k] obtain visited last_page where
    r: "visited_pages corpus d (map fst corpus) drs page = Inr visited"
       "length visited = length drs"
       "set visited \<subseteq> set (map fst corpus)"
       "sample_loop corpus d (map fst corpus) drs (?pc, page)
          = Inr (map (\<lambda>(p, c). (p, c + int (count_list visited p))) ?pc, last_page)"
    by auto
  have final: "map (\<lambda>(p, c). (p, c + int (count_list visited p))) ?pc
                 = map (\<lambda>(p, c). (p, c + int (count_list (current_page # visited) p))) page_count"
    unfolding bump by (rule bump_then_add)
  show ?case
  proof (intro exI conjI)
    show "visited_pages corpus d (map fst corpus) (dr # drs) current_page
            = Inr (current_page # visited)"
      using p(1) r(1) by simp
    show "length (current_page # visited) = length (dr # drs)" using r(2) by simp
    show "set (current_page # visited) \<subseteq> set (map fst corpus)"
      using r(3) Cons.prems(1) by simp
    show "sample_loop corpus d (map fst corpus) (dr # drs) (page_count, current_page)
            = Inr (map (\<lambda>(p, c). (p, c + int (count_list (current_page # visited) p)))
                     page_count, last_page)"
      using v p(1) r(4) final by simp
  qed
qed

lemma count_list_partition:
  assumes "distinct pages" and "set visited \<subseteq> set pages"
  shows "(\<Sum>page\<leftarrow>pages. count_list visited page) = length visited"
proof -
  have "(\<Sum>page\<leftarrow>pages. count_list visited page) = sum (count_list visited) (set pages)"
    by (rule sum_list_distinct_conv_sum_set[OF assms(1)])
  also have "\<dots> = length visited"
    by (rule sum_count_set[OF assms(2)]) simp
  finally show ?thesis .
qed







text \<open>
  On a corpus of one page without links the sampling estimator returns rank 1 for that
  page, for every positive sample count, damping factor and sequence of draws.
\<close>

lemma sample_pagerank_one_page:
  assumes "0 < n"
  shows "sample_pagerank [(a, [])] d n start rng = Inr [(a, 1)]"
proof -
  have lc: "links_closed [(a, [])]" by (simp add: links_closed_def)
  have dk: "distinct (map fst [(a, [])])" by simp
  have m: "a \<in> set (map fst [(a, [])])" by simp
  have k: "map fst [(a, 0::int)] = map fst [(a, [])]" by simp
  from sample_loop_visits[OF lc dk m k, of d "map rng [0..<nat n]"]
  obtain visited last_page where
    r: "length visited = nat n" "set visited \<subseteq> {a}"
       "sample_loop [(a, [])] d [a] (map rng [0..<nat n]) ([(a, 0)], a)
          = Inr ([(a, int (count_list visited a))], last_page)"
    by auto
  from count_list_partition[of "[a]" visited] r(2)
  have "count_list visited a = length visited" by simp
  with r(1) assms have cnt: "int (count_list visited a) = n" by simp
  show ?thesis
    using assms r(3) by (simp add: sample_pagerank_def random_choice_def cnt float_div_same)
qed

lemma select_page_None_nonneg:
  "\<forall>q\<in>set pd. 0 \<le> snd q \<Longrightarrow> r + mass pd < u \<Longrightarrow> select_page pd u r = None"
proof (induction pd arbitrary: r)
  case Nil
  then show ?case by simp
next
  case (Cons q pd)
  obtain page p where q: "q = (page, p)" by (cases q)
  from Cons.prems(1) have nn: "\<forall>q\<in>set pd. 0 \<le> snd q" by simp
  then have "0 \<le> mass pd" unfolding mass_def by (intro sum_list_nonneg) auto
  with Cons.prems(2) q have lt: "r + p < u" and rest: "(r + p) + mass pd < u"
    by (simp_all add: mass_def)
  from Cons.IH[OF nn rest] lt q show ?case by (simp add: Let_def)
qed

lemma select_page_None_neg:
  "\<forall>q\<in>set pd. snd q < 0 \<Longrightarrow> r \<le> u \<Longrightarrow> select_page pd u r = None"
proof (induction pd arbitrary: r)
  case Nil
  then show ?case by simp
next
  case (Cons q pd)
  obtain page p where q: "q = (page, p)" by (cases q)
  from Cons.prems q have p: "p < 0" and nn: "\<forall>q\<in>set pd. snd q < 0" by simp_all
  with Cons.prems(2) have lt: "r + p < u" and le: "r + p \<le> u" by simp_all
  from Cons.IH[OF nn le] lt q show ?case by (simp add: Let_def)
qed

lemma update_same_values:
  "\<forall>q\<in>set rest. snd q = v \<Longrightarrow> \<forall>q\<in>set (AList.update key v rest). snd q = v"
  by (induction rest) auto

lemma fold_update_shape:
  "\<forall>q\<in>set rest. snd q = v \<Longrightarrow> x = r \<or> x = v \<Longrightarrow>
   \<exists>x' rest'. fold (\<lambda>key probability. AList.update key v probability) links ((page, x) # rest)
                 = (page, x') # rest'
               \<and> (x' = r \<or> x' = v) \<and> (\<forall>q\<in>set rest'. snd q = v)"
proof (induction links arbitrary: x rest)
  case Nil
  then show ?case by simp
next
  case (Cons key links)
  show ?case
  proof (cases "page = key")
    case True
    have "x = r \<or> v = v" by simp
    from Cons.IH[OF Cons.prems(1), of v] True show ?thesis by simp
  next
    case False
    from Cons.IH[OF update_same_values[OF Cons.prems(1)] Cons.prems(2), of key] False
    show ?thesis by simp
  qed
qed

lemma transition_model_shape:
  assumes "transition_model corpus page d = Inr pd" and "0 \<le> d"
  shows "\<exists>x rest remain v. pd = (page, x) # rest \<and> (x = remain \<or> x = v) \<and> remain \<le> v
           \<and> (\<forall>q\<in>set rest. snd q = v)"
proof (cases "map_of corpus page")
  case None
  then show ?thesis using assms by (simp add: transition_model_def)
next
  case (Some links)
  define ppl where "ppl = (if length links > 0 then d / real (length links) else 0)"
  define remain where "remain = (1 - d) / real (length corpus)"
  have ppl: "0 \<le> ppl" using assms(2) by (simp add: ppl_def)
  from assms(1) Some have pd:
    "pd = fold (\<lambda>key probability. AList.update key (ppl + remain) probability) links
            [(page, remain)]"
    by (simp add: transition_model_def Let_def ppl_def remain_def split: if_splits)
  have "\<forall>q\<in>set ([]::('a \<times> real) list). snd q = ppl + remain" by simp
  from fold_update_shape[OF this, of remain remain links page]
  obtain x rest where
    "fold (\<lambda>key probability. AList.update key (ppl + remain) probability) links [(page, remain)]
       = (page, x) # rest"
    "x = remain \<or> x = ppl + remain" "\<forall>q\<in>set rest. snd q = ppl + remain"
    by auto
  with pd ppl show ?thesis by (intro exI[of _ x] exI[of _ rest] exI[of _ remain] exI[of _ "ppl + remain"]) simp
qed

text \<open>
  C10. In the damped branch of a step (the first uniform draw is at most the damping
  factor), whenever the second uniform draw exceeds the total mass of the distribution
  the transition model returns for the current page, the selection loop ends without
  choosing a page and the current page stays as it is. The draws of
  \<^verbatim>\<open>random.uniform(0,1)\<close> are non-negative. The instance below the theorem is a walk at the
  dangling page \<open>B\<close> of a corpus without self-links that stays at \<open>B\<close>.
\<close>

theorem draw_beyond_mass_keeps_page:
  assumes "transition_model corpus current_page d = Inr pd"
    and "0 \<le> choice dr" and "choice dr \<le> d"
    and "0 \<le> choose_link_from_page dr"
    and "mass pd < choose_link_from_page dr"
  shows "select_page pd (choose_link_from_page dr) 0 = None
         \<and> next_page corpus d pages current_page dr = Inr current_page"
proof -
  let ?u = "choose_link_from_page dr"
  from assms(2,3) have d: "0 \<le> d" by simp
  from transition_model_shape[OF assms(1) d] obtain x rest remain v where
    s: "pd = (current_page, x) # rest" "x = remain \<or> x = v" "remain \<le> v"
       "\<forall>q\<in>set rest. snd q = v"
    by auto
  have none: "select_page pd ?u 0 = None"
  proof (cases "0 \<le> v")
    case True
    with s(4) have nn: "\<forall>q\<in>set rest. 0 \<le> snd q" by simp
    then have "0 \<le> mass rest" unfolding mass_def by (intro sum_list_nonneg) auto
    with assms(5) s(1) have lt: "x < ?u" and rest: "x + mass rest < ?u"
      by (simp_all add: mass_def)
    from select_page_None_nonneg[OF nn rest] lt s(1) show ?thesis by (simp add: Let_def)
  next
    case False
    with s(2,3,4) have "\<forall>q\<in>set pd. snd q < 0" unfolding s(1) by auto
    from select_page_None_neg[OF this assms(4)] show ?thesis .
  qed
  with assms(1,3) show ?thesis by (simp add: next_page_def)
qed

theorem draw_beyond_mass_keeps_page_witness:
  "transition_model dangling_corpus ''B'' (85/100) = Inr [(''B'', 1/20)]
   \<and> (0::real) \<le> 1/2 \<and> (1/2::real) \<le> 85/100 \<and> (0::real) \<le> 3/4
   \<and> mass [(''B'', 1/20)] < (3/4::real)
   \<and> select_page [(''B'', 1/20)] (3/4) 0 = None
   \<and> next_page dangling_corpus (85/100) [''A'', ''B'', ''C''] ''B''
        \<lparr>choice = 1/2, choose_link_from_page = 3/4, restart = 0\<rparr> = Inr ''B''
   \<and> crawled dangling_corpus"
proof -
  let ?dr = "\<lparr>choice = 1/2, choose_link_from_page = 3/4, restart = 0\<rparr>"
  have h1: "transition_model dangling_corpus ''B'' (85/100) = Inr [(''B'', 1/20)]"
    by (simp add: transition_model_def dangling_corpus_def)
  have h2: "0 \<le> choice ?dr" by simp
  have h3: "choice ?dr \<le> 85/100" by simp
  have h4: "0 \<le> choose_link_from_page ?dr" by simp
  have h5: "mass [(''B'', 1/20)] < choose_link_from_page ?dr" by (simp add: mass_def)
  have c: "crawled dangling_corpus"
    by (simp add: crawled_def is_corpus_def dangling_corpus_def)
  from draw_beyond_mass_keeps_page[OF h1 h2 h3 h4 h5, of "[''A'', ''B'', ''C'']"] h1 h5 c
  show ?thesis by simp
qed

text \<open>
  C5. The claim: at every step the next page is drawn from the transition model's
  distribution by one uniform draw and inverse-CDF selection, with no further
  damping-factor coin flip or uniform restart. The code draws \<open>choice\<close> first and, when
  it is above the damping factor, replaces the current page by \<^verbatim>\<open>random.choice(pages)\<close>
  without consulting the transition model. On \<open>{A: {B}, B: {}, C: {A}}\<close> with damping
  factor \<open>0.85\<close>, two samples, start page \<open>A\<close> and first draw \<open>0.9\<close>, the walk goes from \<open>A\<close>
  to \<open>C\<close>, and the estimate is \<open>{A: 0.5, B: 0.0, C: 0.5}\<close>; the transition model's
  distribution for \<open>A\<close> is \<open>{A: 0.05, B: 0.9}\<close>, it has no entry for \<open>C\<close>, and the selection
  loop run on it with the draw \<open>0.5\<close> yields \<open>B\<close>.
\<close>

theorem sample_pagerank_restarts_outside_transition_model:
  "sample_pagerank dangling_corpus (85/100) 2 0 (\<lambda>i. restart_draws)
     = Inr [(''A'', 1/2), (''B'', 0), (''C'', 1/2)]
   \<and> next_page dangling_corpus (85/100) (map fst dangling_corpus) ''A'' restart_draws
       = Inr ''C''
   \<and> transition_model dangling_corpus ''A'' (85/100) = Inr [(''A'', 1/20), (''B'', 9/10)]
   \<and> map_of [(''A'', 1/20), (''B'', 9/10 :: real)] ''C'' = None
   \<and> select_page [(''A'', 1/20), (''B'', 9/10)] (choose_link_from_page restart_draws) 0
       = Some ''B''"
proof -
  have walk: "sample_loop dangling_corpus (85/100) [''A'', ''B'', ''C'']
                [restart_draws, restart_draws] ([(''A'', 0), (''B'', 0), (''C'', 0)], ''A'')
              = Inr ([(''A'', 1), (''B'', 0), (''C'', 1)], ''C'')"
    by (simp add: next_page_def random_choice_def restart_draws_def)
  have "sample_pagerank dangling_corpus (85/100) 2 0 (\<lambda>i. restart_draws)
          = Inr [(''A'', float_div 1 2), (''B'', float_div 0 2), (''C'', float_div 1 2)]"
    using walk
    by (simp add: sample_pagerank_def random_choice_def dangling_corpus_def upt_rec)
  then have est: "sample_pagerank dangling_corpus (85/100) 2 0 (\<lambda>i. restart_draws)
                          = Inr [(''A'', 1/2), (''B'', 0), (''C'', 1/2)]"
    by (simp add: float_div_values)
  have rest:
    "next_page dangling_corpus (85/100) (map fst dangling_corpus) ''A'' restart_draws
       = Inr ''C''"
    "transition_model dangling_corpus ''A'' (85/100) = Inr [(''A'', 1/20), (''B'', 9/10)]"
    "map_of [(''A'', 1/20), (''B'', 9/10 :: real)] ''C'' = None"
    "select_page [(''A'', 1/20), (''B'', 9/10)] (choose_link_from_page restart_draws) 0
       = Some ''B''"
    by (simp_all add: next_page_def random_choice_def transition_model_def
          dangling_corpus_def restart_draws_def)
  from est rest show ?thesis by (simp only: simp_thms)
qed

subsection \<open>Iterative estimator: the iteration cap\<close>

lemma star_new_rank:
  "new_rank star_corpus [(''C'', x), (''L1'', y), (''L2'', z)] d 3 ''C''
     = Inr ((1 - d) / 3 + (d * (y / 1) + d * (z / 1)))"
  "new_rank star_corpus [(''C'', x), (''L1'', y), (''L2'', z)] d 3 ''L1''
     = Inr ((1 - d) / 3 + d * (x / 2))"
  "new_rank star_corpus [(''C'', x), (''L1'', y), (''L2'', z)] d 3 ''L2''
     = Inr ((1 - d) / 3 + d * (x / 2))"
  by (simp_all add: new_rank_def star_corpus_def)

lemma star_update_pass:
  assumes "\<not> \<bar>((1 - d) / 3 + (d * (y / 1) + d * (z / 1))) - x\<bar> < 0.001"
    and "\<not> \<bar>((1 - d) / 3 + d * (x / 2)) - y\<bar> < 0.001"
    and "\<not> \<bar>((1 - d) / 3 + d * (x / 2)) - z\<bar> < 0.001"
  shows "update_pass star_corpus [(''C'', x), (''L1'', y), (''L2'', z)] d 3
           [''C'', ''L1'', ''L2''] []
         = Inr (Completed [(''C'', (1 - d) / 3 + (d * (y / 1) + d * (z / 1))),
                           (''L1'', (1 - d) / 3 + d * (x / 2)),
                           (''L2'', (1 - d) / 3 + d * (x / 2))])"
  using assms by (simp add: star_new_rank)

lemma scaled_abs: "0 \<le> c \<Longrightarrow> \<bar>(- c) * e\<bar> = c * \<bar>e\<bar>" for c e :: real
  by (simp add: abs_mult)

lemma scaled_abs_pos: "0 \<le> c \<Longrightarrow> \<bar>c * e\<bar> = c * \<bar>e\<bar>" for c e :: real
  by (simp add: abs_mult)

lemma star_pass:
  assumes "1/900 \<le> \<bar>x - 298/597\<bar>"
  shows "update_pass star_corpus (star_state x) (99/100) 3 (map fst star_corpus) []
         = Inr (Completed (star_state (1/300 + 99/100 * (1 - x))))"
proof -
  have e: "((1 - 99/100) / 3 + (99/100 * (((1 - x) / 2) / 1) + 99/100 * (((1 - x) / 2) / 1))) - x
             = (- (199/100)) * (x - 298/597)"
    by (simp add: field_simps)
  have m: "\<bar>(- (199/100)) * (x - 298/597)\<bar> = (199/100) * \<bar>x - 298/597\<bar>"
    by (rule scaled_abs) simp
  from assms have "1/1000 \<le> (199/100) * \<bar>x - 298/597\<bar>" by (simp add: field_simps)
  then have "\<not> \<bar>(- (199/100)) * (x - 298/597)\<bar> < 1/1000"
    unfolding m by (simp only: not_less)
  then have a: "\<not> \<bar>((1 - 99/100) / 3 + (99/100 * (((1 - x) / 2) / 1) + 99/100 * (((1 - x) / 2) / 1))) - x\<bar> < 0.001"
    by (simp only: e) simp
  have e': "((1 - 99/100) / 3 + 99/100 * (x / 2)) - (1 - x) / 2 = (199/200) * (x - 298/597)"
    by (simp add: field_simps)
  have m': "\<bar>(199/200) * (x - 298/597)\<bar> = (199/200) * \<bar>x - 298/597\<bar>"
    by (rule scaled_abs_pos) simp
  from assms have "1/1000 \<le> (199/200) * \<bar>x - 298/597\<bar>" by (simp add: field_simps)
  then have "\<not> \<bar>(199/200) * (x - 298/597)\<bar> < 1/1000"
    unfolding m' by (simp only: not_less)
  then have b: "\<not> \<bar>((1 - 99/100) / 3 + 99/100 * (x / 2)) - (1 - x) / 2\<bar> < 0.001"
    by (simp only: e') simp
  have k: "map fst star_corpus = [''C'', ''L1'', ''L2'']" by (simp add: star_corpus_def)
  show ?thesis
    unfolding star_state_def k
    by (simp only: star_update_pass[OF a b b]) (simp add: field_simps)
qed

lemma star_never_converges:
  "cnt + k = 100 \<Longrightarrow> 1/900 \<le> \<bar>x - 298/597\<bar> * (99/100) ^ k \<Longrightarrow>
     iterate_loop star_corpus (99/100) 3 cnt (star_state x) = Inr None"
proof (induction k arbitrary: cnt x)
  case 0
  then show ?case by (simp add: iterate_loop.simps)
next
  case (Suc k)
  from Suc.prems(1) have cnt: "cnt < 100" "(cnt + 1) + k = 100" by simp_all
  have "(99/100::real) ^ Suc k \<le> 1" by (intro power_le_one) simp_all
  then have "\<bar>x - 298/597\<bar> * (99/100) ^ Suc k \<le> \<bar>x - 298/597\<bar> * 1"
    by (intro mult_left_mono) simp_all
  with Suc.prems(2) have big: "1/900 \<le> \<bar>x - 298/597\<bar>" by simp
  let ?x' = "1/300 + 99/100 * (1 - x)"
  have eq: "?x' - 298/597 = (- (99/100)) * (x - 298/597)" by (simp add: field_simps)
  have "\<bar>?x' - 298/597\<bar> = \<bar>(- (99/100)) * (x - 298/597)\<bar>" by (simp only: eq)
  also have "\<dots> = (99/100) * \<bar>x - 298/597\<bar>" by (rule scaled_abs) simp
  finally have "\<bar>?x' - 298/597\<bar> * (99/100) ^ k = \<bar>x - 298/597\<bar> * (99/100) ^ Suc k"
    by simp
  with Suc.prems(2) have next_inv: "1/900 \<le> \<bar>?x' - 298/597\<bar> * (99/100) ^ k"
    by (simp only:)
  have "iterate_loop star_corpus (99/100) 3 cnt (star_state x)
          = iterate_loop star_corpus (99/100) 3 (cnt + 1) (star_state ?x')"
    by (subst iterate_loop.simps) (simp add: cnt(1) star_pass[OF big])
  also have "\<dots> = Inr None" by (rule Suc.IH[OF cnt(2) next_inv])
  finally show ?case .
qed

text \<open>
  C6. The claim: when 100 passes end without convergence, the iterative estimator fails
  with an error or returns a flagged estimate. The code falls out of the \<^verbatim>\<open>while\<close> loop
  and returns \<^verbatim>\<open>None\<close>. On the star \<open>{C: {L1, L2}, L1: {C}, L2: {C}}\<close> with damping factor
  \<open>0.99\<close> the rank of \<open>C\<close> oscillates around \<open>298/597\<close> with an amplitude that shrinks by the
  factor \<open>0.99\<close> per pass, so in each of the 100 passes every page changes by more than
  \<open>0.001\<close>.
\<close>

theorem iterate_pagerank_returns_nothing:
  "iterate_pagerank star_corpus (99/100) = Inr None"
proof -
  have "iterate_pagerank star_corpus (99/100)
          = iterate_loop star_corpus (99/100) 3 0 (star_state (1/3))"
    by (simp add: iterate_pagerank_def star_corpus_def star_state_def flip: numeral_3_eq_3)
  also have "\<dots> = Inr None"
  proof (rule star_never_converges)
    show "0 + 100 = (100::nat)" by simp
    show "(1/900::real) \<le> \<bar>1/3 - 298/597\<bar> * (99/100) ^ 100"
      by (simp add: power_divide)
  qed
  finally show ?thesis .
qed

end
